theory Spec2Isabelle
  imports Complex_Main "HOL-Library.Word" "HOL-Library.AList"
begin

unbundle bit_operations_syntax

section \<open>Cloudflare Pages direct uploader: a shallow embedding of index.ts\<close>

text \<open>
  The development follows \<^verbatim>\<open>src/index.ts\<close> (the current version, its first 336 lines).
  Strings are byte strings: a JavaScript string is modelled by its UTF-8 encoding, a
  \<^verbatim>\<open>Buffer\<close> by its bytes, both as \<^typ>\<open>string\<close>. A JavaScript number that
  counts something is an \<^typ>\<open>int\<close>; the back-off delay, a number with a
  fractional part, is a \<^typ>\<open>real\<close> (the rounding of IEEE doubles is not modelled).
  A thrown value is a value of type \<open>thrown\<close>, and a function that may throw returns
  \<open>thrown + 'a\<close>. A call that goes to the network or to the clock takes its answer
  from an explicit oracle, and every such call is recorded in a trace.
\<close>

subsection \<open>Library functions of Node: base64, hex, path.basename, path.extname\<close>

text \<open>
  \<^verbatim>\<open>buf.toString('base64')\<close> (RFC 4648 with padding), \<^verbatim>\<open>buf.toString('hex')\<close>,
  and the POSIX versions of \<^verbatim>\<open>path.basename\<close> and \<^verbatim>\<open>path.extname\<close>.
  \<^verbatim>\<open>basename\<close> drops trailing slashes and keeps what follows the last remaining slash.
  \<^verbatim>\<open>extname\<close> returns the part of the base name from its last dot on, and the empty
  string when the base name has no dot, when its last dot is its first character
  (\<^verbatim>\<open>.bashrc\<close>), and for \<^verbatim>\<open>..\<close>.
\<close>

type_synonym bytes = string

definition base64_alphabet :: string where
  "base64_alphabet = ''ABCDEFGHIJKLMNOPQRSTUVWXYZabcdefghijklmnopqrstuvwxyz0123456789+/''"

fun base64_groups :: "nat list \<Rightarrow> string" where
  "base64_groups (a # b # c # rest) =
     [base64_alphabet ! (a div 4), base64_alphabet ! ((a mod 4) * 16 + b div 16),
      base64_alphabet ! ((b mod 16) * 4 + c div 64), base64_alphabet ! (c mod 64)] @ base64_groups rest"
| "base64_groups [a, b] =
     [base64_alphabet ! (a div 4), base64_alphabet ! ((a mod 4) * 16 + b div 16),
      base64_alphabet ! ((b mod 16) * 4), CHR ''='']"
| "base64_groups [a] =
     [base64_alphabet ! (a div 4), base64_alphabet ! ((a mod 4) * 16), CHR ''='', CHR ''='']"
| "base64_groups [] = []"

definition toString_base64 :: "bytes \<Rightarrow> string" where
  "toString_base64 buf = base64_groups (map of_char buf)"

definition hex_digits :: string where
  "hex_digits = ''0123456789abcdef''"

definition toString_hex :: "bytes \<Rightarrow> string" where
  "toString_hex buf = concat (map (\<lambda>c. [hex_digits ! (of_char c div 16), hex_digits ! (of_char c mod 16)]) buf)"

definition basename :: "string \<Rightarrow> string" where
  "basename path =
     rev (takeWhile (\<lambda>c. c \<noteq> CHR ''/'') (dropWhile (\<lambda>c. c = CHR ''/'') (rev path)))"

definition extname :: "string \<Rightarrow> string" where
  "extname path =
     (let b = basename path;
          after_dot = rev (takeWhile (\<lambda>c. c \<noteq> CHR ''.'') (rev b))
      in if CHR ''.'' \<notin> set b then []
         else if length after_dot + 1 = length b then []
         else if b = ''..'' then []
         else CHR ''.'' # after_dot)"

subsection \<open>The BLAKE3 hash function (blake3-wasm's hash)\<close>

text \<open>
  The hash mode of BLAKE3 with the default 32-byte output: 64-byte blocks, 1024-byte chunks,
  and the binary tree of chunks whose left subtree holds the largest power of two of chunks
  that leaves at least one byte on the right. A 32-bit word is a natural number below
  \<open>2 ^ 32\<close>; the wrap-around of addition and the rotation are written out.
\<close>

type_synonym u32 = nat

definition IV :: "u32 list" where
  "IV = [0x6A09E667, 0xBB67AE85, 0x3C6EF372, 0xA54FF53A, 0x510E527F, 0x9B05688C, 0x1F83D9AB, 0x5BE0CD19]"

definition MSG_PERMUTATION :: "nat list" where
  "MSG_PERMUTATION = [2, 6, 3, 10, 7, 0, 4, 13, 1, 11, 12, 5, 9, 14, 15, 8]"

definition CHUNK_START :: u32 where "CHUNK_START = 1"
definition CHUNK_END :: u32 where "CHUNK_END = 2"
definition PARENT :: u32 where "PARENT = 4"
definition ROOT :: u32 where "ROOT = 8"

definition add32 :: "u32 \<Rightarrow> u32 \<Rightarrow> u32" where
  "add32 a b = (a + b) mod 4294967296"

definition rotr32 :: "nat \<Rightarrow> u32 \<Rightarrow> u32" where
  "rotr32 n x = x div 2 ^ n + (x mod 2 ^ n) * 2 ^ (32 - n)"

definition g :: "u32 \<Rightarrow> u32 \<Rightarrow> u32 \<Rightarrow> u32 \<Rightarrow> u32 \<Rightarrow> u32 \<Rightarrow> u32 \<times> u32 \<times> u32 \<times> u32" where
  "g a b c d mx my =
    (let a = add32 (add32 a b) mx; d = rotr32 16 (d XOR a);
         c = add32 c d; b = rotr32 12 (b XOR c);
         a = add32 (add32 a b) my; d = rotr32 8 (d XOR a);
         c = add32 c d; b = rotr32 7 (b XOR c)
     in (a, b, c, d))"

definition gi :: "nat \<Rightarrow> nat \<Rightarrow> nat \<Rightarrow> nat \<Rightarrow> u32 \<Rightarrow> u32 \<Rightarrow> u32 list \<Rightarrow> u32 list" where
  "gi a b c d mx my s =
    (case g (s ! a) (s ! b) (s ! c) (s ! d) mx my of
      (x, y, z, w) \<Rightarrow> s[a := x, b := y, c := z, d := w])"

definition round_fn :: "u32 list \<Rightarrow> u32 list \<Rightarrow> u32 list" where
  "round_fn s m =
     gi 3 4 9 14 (m ! 14) (m ! 15) (gi 2 7 8 13 (m ! 12) (m ! 13)
    (gi 1 6 11 12 (m ! 10) (m ! 11) (gi 0 5 10 15 (m ! 8) (m ! 9)
    (gi 3 7 11 15 (m ! 6) (m ! 7) (gi 2 6 10 14 (m ! 4) (m ! 5)
    (gi 1 5 9 13 (m ! 2) (m ! 3) (gi 0 4 8 12 (m ! 0) (m ! 1) s)))))))"

definition permute :: "u32 list \<Rightarrow> u32 list" where
  "permute m = map (\<lambda>i. m ! i) MSG_PERMUTATION"

fun rounds :: "nat \<Rightarrow> u32 list \<Rightarrow> u32 list \<Rightarrow> u32 list" where
  "rounds 0 s m = s"
| "rounds (Suc n) s m = rounds n (round_fn s m) (permute m)"

definition compress :: "u32 list \<Rightarrow> u32 list \<Rightarrow> nat \<Rightarrow> u32 \<Rightarrow> u32 \<Rightarrow> u32 list" where
  "compress cv block_words counter block_len flags =
    (let s = rounds 7 (cv @ take 4 IV @ [counter mod 2 ^ 32, counter div 2 ^ 32, block_len, flags])
               block_words
     in map2 (XOR) (take 8 s) (drop 8 s) @ map2 (XOR) (drop 8 s) cv)"

fun words_of_bytes :: "nat list \<Rightarrow> u32 list" where
  "words_of_bytes (a # b # c # d # rest) =
     (a + 256 * b + 65536 * c + 16777216 * d) # words_of_bytes rest"
| "words_of_bytes _ = []"

definition block_words_of :: "nat list \<Rightarrow> u32 list" where
  "block_words_of block = words_of_bytes (block @ replicate (64 - length block) 0)"

definition bytes_of_word :: "u32 \<Rightarrow> nat list" where
  "bytes_of_word w = [w mod 256, w div 256 mod 256, w div 65536 mod 256, w div 16777216 mod 256]"

record output_node =
  input_chaining_value :: "u32 list"
  out_block_words :: "u32 list"
  out_counter :: nat
  out_block_len :: u32
  out_flags :: u32

definition chaining_value :: "output_node \<Rightarrow> u32 list" where
  "chaining_value out =
     take 8 (compress (input_chaining_value out) (out_block_words out) (out_counter out)
       (out_block_len out) (out_flags out))"

definition root_output_bytes :: "output_node \<Rightarrow> nat list" where
  "root_output_bytes out =
     concat (map bytes_of_word (take 8 (compress (input_chaining_value out) (out_block_words out) 0
       (out_block_len out) (out_flags out OR ROOT))))"

fun chunk_output :: "u32 list \<Rightarrow> nat \<Rightarrow> u32 \<Rightarrow> nat list \<Rightarrow> output_node" where
  "chunk_output cv chunk_counter start_flag input =
     (if length input \<le> 64 then
        \<lparr>input_chaining_value = cv, out_block_words = block_words_of input,
         out_counter = chunk_counter, out_block_len = length input,
         out_flags = start_flag OR CHUNK_END\<rparr>
      else
        chunk_output (take 8 (compress cv (block_words_of (take 64 input)) chunk_counter 64 start_flag))
          chunk_counter 0 (drop 64 input))"

definition parent_output :: "u32 list \<Rightarrow> u32 list \<Rightarrow> output_node" where
  "parent_output left_cv right_cv =
     \<lparr>input_chaining_value = IV, out_block_words = left_cv @ right_cv, out_counter = 0,
      out_block_len = 64, out_flags = PARENT\<rparr>"

fun largest_power_of_two_leq :: "nat \<Rightarrow> nat" where
  "largest_power_of_two_leq n = (if n < 2 then 1 else 2 * largest_power_of_two_leq (n div 2))"

declare largest_power_of_two_leq.simps [simp del]

definition left_len :: "nat \<Rightarrow> nat" where
  "left_len content_len = 1024 * largest_power_of_two_leq ((content_len - 1) div 1024)"

lemma largest_power_of_two_leq_bounds:
  "1 \<le> n \<Longrightarrow> 1 \<le> largest_power_of_two_leq n \<and> largest_power_of_two_leq n \<le> n"
proof (induction n rule: largest_power_of_two_leq.induct)
  case (1 n)
  show ?case
  proof (cases "n < 2")
    case True
    then have "largest_power_of_two_leq n = 1"
      by (subst largest_power_of_two_leq.simps) simp
    with 1(2) show ?thesis by simp
  next
    case False
    then have unfold: "largest_power_of_two_leq n = 2 * largest_power_of_two_leq (n div 2)"
      by (subst largest_power_of_two_leq.simps) simp
    from False have "1 \<le> n div 2" by simp
    with 1(1) False
    have "1 \<le> largest_power_of_two_leq (n div 2) \<and> largest_power_of_two_leq (n div 2) \<le> n div 2"
      by simp
    with unfold show ?thesis by arith
  qed
qed

lemma left_len_bounds: "1024 < n \<Longrightarrow> 0 < left_len n \<and> left_len n < n"
proof -
  assume a: "1024 < n"
  then have "1 \<le> (n - 1) div 1024" by simp
  from largest_power_of_two_leq_bounds [OF this] a show ?thesis
    unfolding left_len_def by arith
qed

function subtree_output :: "nat list \<Rightarrow> nat \<Rightarrow> output_node" where
  "subtree_output input chunk_counter =
     (if length input \<le> 1024 then chunk_output IV chunk_counter CHUNK_START input
      else
        parent_output
          (chaining_value (subtree_output (take (left_len (length input)) input) chunk_counter))
          (chaining_value (subtree_output (drop (left_len (length input)) input)
             (chunk_counter + left_len (length input) div 1024))))"
  by pat_completeness auto
termination
proof (relation "measure (\<lambda>(input, c). length input)")
  show "wf (measure (\<lambda>(input :: nat list, c :: nat). length input))"
    by simp
next
  fix input :: "nat list" and chunk_counter :: nat
  assume "\<not> length input \<le> 1024"
  then have "left_len (length input) < length input"
    using left_len_bounds [of "length input"] by simp
  then show "((take (left_len (length input)) input, chunk_counter), input, chunk_counter)
      \<in> measure (\<lambda>(input, c). length input)"
    by simp
next
  fix input :: "nat list" and chunk_counter :: nat
  assume "\<not> length input \<le> 1024"
  then have "length input - left_len (length input) < length input"
    using left_len_bounds [of "length input"] by arith
  then show "((drop (left_len (length input)) input,
      chunk_counter + left_len (length input) div 1024), input, chunk_counter)
      \<in> measure (\<lambda>(input, c). length input)"
    by simp
qed

text \<open>
  \<^verbatim>\<open>blake3hash(s)\<close> hashes the UTF-8 bytes of the string and returns the 32-byte digest.
\<close>

definition blake3hash :: "string \<Rightarrow> bytes" where
  "blake3hash input = map char_of (root_output_bytes (subtree_output (map of_char input) 0))"

subsection \<open>computeHash and computeHashB64\<close>

definition computeHashB64 :: "string \<Rightarrow> string \<Rightarrow> string" where
  "computeHashB64 b64 filename =
     (let extension = drop 1 (extname (basename filename))
      in take 32 (toString_hex (blake3hash (b64 @ extension))))"

definition computeHash :: "bytes \<Rightarrow> string \<Rightarrow> string" where
  "computeHash content filename = computeHashB64 (toString_base64 content) filename"

declare chunk_output.simps [simp del] subtree_output.simps [simp del]



subsection \<open>Thrown values and the API envelope\<close>

datatype thrown = Undefined | Error string | TypeError string

type_synonym api_error = "int \<times> string"

datatype 'a envelope = Success 'a | Failure "api_error list"

subsection \<open>doRequest\<close>

text \<open>
  \<open>fetch\<close> is the oracle for the network: it maps the request that is sent to a failure
  of the transport or to a response, of which the code reads the content-type header and the
  body text. \<open>JSON_parse\<close> stands for \<^verbatim>\<open>JSON.parse\<close> followed by the cast to the typed
  envelope. A form body is a list of parts; \<open>JsonField name obj\<close> is a text field holding
  \<^verbatim>\<open>JSON.stringify(obj)\<close>. \<open>spread\<close> is the object spread: a key that is already
  there keeps its place and takes the new entry.
\<close>

datatype form_part =
    Field string string
  | JsonField string "(string \<times> string) list"
  | BlobPart string string string

datatype request_body = TextBody string | FormBody "form_part list"

datatype http_method = GET | POST

record RequestOptions =
  headers :: "(string \<times> string) list option"
  body :: "request_body option"
  log_opt :: bool

record http_request =
  req_url :: string
  req_headers :: "(string \<times> string) list"
  req_method :: http_method
  req_body :: "request_body option"

datatype fetch_result = FetchFailed thrown | Response "string option" string

definition BASE_URL :: string where
  "BASE_URL = ''https://api.cloudflare.com/client/v4''"

fun str_includes :: "string \<Rightarrow> string \<Rightarrow> bool" where
  "str_includes [] needle = (needle = [])"
| "str_includes (c # cs) needle = (take (length needle) (c # cs) = needle \<or> str_includes cs needle)"

definition body_truthy :: "request_body option \<Rightarrow> bool" where
  "body_truthy b = (case b of None \<Rightarrow> False | Some (TextBody s) \<Rightarrow> s \<noteq> [] | Some (FormBody f) \<Rightarrow> True)"

definition body_is_string :: "request_body option \<Rightarrow> bool" where
  "body_is_string b = (case b of Some (TextBody s) \<Rightarrow> True | _ \<Rightarrow> False)"

definition spread :: "(string \<times> string) list \<Rightarrow> (string \<times> string) list \<Rightarrow> (string \<times> string) list" where
  "spread obj extra = fold (\<lambda>(k, v). AList.update k v) extra obj"

definition doRequest ::
  "(string \<Rightarrow> thrown + 'a envelope) \<Rightarrow> (http_request \<Rightarrow> fetch_result) \<Rightarrow>
   string \<Rightarrow> string \<Rightarrow> RequestOptions \<Rightarrow> thrown + 'a envelope" where
  "doRequest JSON_parse fetch url apiKey options =
     (let url = BASE_URL @ url;
          headers0 = spread
            [(''Authorization'', ''Bearer '' @ apiKey),
             (''User-Agent'', ''@adamburgess/cloudflare-pages-direct-upload@0.0.1'')]
            (case RequestOptions.headers options of None \<Rightarrow> [] | Some h \<Rightarrow> h);
          headers1 =
            (if body_truthy (body options) \<and> body_is_string (body options)
             then AList.update ''Content-Type'' ''application/json'' headers0 else headers0)
      in case fetch \<lparr>req_url = url, req_headers = headers1,
                      req_method = (if body_truthy (body options) then POST else GET),
                      req_body = body options\<rparr> of
           FetchFailed e \<Rightarrow> Inl e
         | Response type txt \<Rightarrow>
             (case type of
                None \<Rightarrow> Inl (Error (''expecting json '' @ txt))
              | Some ty \<Rightarrow>
                  if ty = [] \<or> \<not> str_includes ty ''application/json''
                  then Inl (Error (''expecting json '' @ txt))
                  else JSON_parse txt))"

subsection \<open>doRequestWithRetries\<close>

text \<open>
  The loop \<^verbatim>\<open>while (retryCount++ !== retries)\<close>. \<open>attempt k\<close> is the outcome of the
  call of \<^verbatim>\<open>doRequest\<close> number \<open>k\<close> (from 0); \<open>retryCount\<close> below is the value before
  the increment, which is also the number of calls made so far, and the body of the loop sees
  \<open>retryCount + 1\<close>. The events record each call, each message handed to the log callback
  (when there is one) and each sleep. With a negative \<open>retries\<close> and a request that keeps
  failing the loop never ends: the function is partial, and \<open>None\<close> is non-termination.
\<close>

datatype retry_event = Requested nat | Logged string real thrown | Slept real

definition backoff_delay :: "int \<Rightarrow> real" where
  "backoff_delay retryCount = min (real_of_int retryCount powr 2.5) 60 * 1000"

partial_function (option) retry_loop ::
  "(nat \<Rightarrow> thrown + 'a envelope) \<Rightarrow> bool \<Rightarrow> string \<Rightarrow> int \<Rightarrow> int \<Rightarrow> thrown \<Rightarrow>
   retry_event list \<Rightarrow> ((thrown + 'a envelope) \<times> retry_event list) option" where
  "retry_loop attempt has_log url retries retryCount lastError events =
     (if retryCount \<noteq> retries then
        (case attempt (nat retryCount) of
           Inr result \<Rightarrow> Some (Inr result, events @ [Requested (nat retryCount)])
         | Inl e \<Rightarrow>
             retry_loop attempt has_log url retries (retryCount + 1) e
               (events @ [Requested (nat retryCount)] @
                (if has_log then [Logged url (backoff_delay (retryCount + 1)) e] else []) @
                [Slept (backoff_delay (retryCount + 1))]))
      else Some (Inl lastError, events))"

definition doRequestWithRetries ::
  "(string \<Rightarrow> thrown + 'a envelope) \<Rightarrow> (nat \<Rightarrow> http_request \<Rightarrow> fetch_result) \<Rightarrow>
   string \<Rightarrow> string \<Rightarrow> RequestOptions \<Rightarrow> int \<Rightarrow>
   ((thrown + 'a envelope) \<times> retry_event list) option" where
  "doRequestWithRetries JSON_parse fetch url apiKey options retries =
     retry_loop (\<lambda>k. doRequest JSON_parse (fetch k) url apiKey options)
       (log_opt options) url retries 0 Undefined []"

definition default_retries :: int where
  "default_retries = 5"

subsection \<open>Observations on the events of the retry wrapper\<close>

text \<open>
  The value thrown by a failed call, the events of the round of the loop in which call
  number \<open>i\<close> fails (the call, the message to the log callback when there is one, the sleep),
  and the calls and the sleeps in a list of events.
\<close>

definition thrown_by :: "(nat \<Rightarrow> thrown + 'a) \<Rightarrow> nat \<Rightarrow> thrown" where
  "thrown_by attempt i = (case attempt i of Inl e \<Rightarrow> e | Inr r \<Rightarrow> Undefined)"

definition failed_round :: "(nat \<Rightarrow> thrown + 'a) \<Rightarrow> bool \<Rightarrow> string \<Rightarrow> nat \<Rightarrow> retry_event list" where
  "failed_round attempt has_log u i =
     [Requested i] @
     (if has_log then [Logged u (backoff_delay (int i + 1)) (thrown_by attempt i)] else []) @
     [Slept (backoff_delay (int i + 1))]"

fun requests :: "retry_event list \<Rightarrow> nat list" where
  "requests [] = []"
| "requests (Requested i # events) = i # requests events"
| "requests (ev # events) = requests events"

fun sleeps :: "retry_event list \<Rightarrow> real list" where
  "sleeps [] = []"
| "sleeps (Slept d # events) = d # sleeps events"
| "sleeps (ev # events) = sleeps events"

text \<open>
  A network that fails four times and then answers with a JSON envelope, and the parser that
  reads that envelope.
\<close>

definition fetch_fifth :: "nat \<Rightarrow> http_request \<Rightarrow> fetch_result" where
  "fetch_fifth k request =
     (if k < 4 then FetchFailed (TypeError ''fetch failed'')
      else Response (Some ''application/json; charset=UTF-8'') ''{\"success\":true,\"result\":[]}'')"

definition parse_ok :: "string \<Rightarrow> thrown + string list envelope" where
  "parse_ok txt = Inr (Success [])"

definition no_options :: RequestOptions where
  "no_options = \<lparr>RequestOptions.headers = None, body = None, log_opt = False\<rparr>"

subsection \<open>JWTCache\<close>

text \<open>
  \<open>JWTCache_get\<close> is the method \<^verbatim>\<open>get\<close>: \<open>this_jwt\<close> is the field of the cache,
  \<open>now\<close> the value of \<^verbatim>\<open>new Date()\<close> in milliseconds, and \<open>getJwt\<close> the outcome that
  awaiting \<^verbatim>\<open>getJwt(options)\<close> has if it is called. The result holds what \<^verbatim>\<open>get\<close>
  returns or throws, the field afterwards, and whether \<^verbatim>\<open>getJwt\<close> was called.
  \<open>base64_decode\<close> stands for \<^verbatim>\<open>Buffer.from(s, 'base64').toString()\<close> and
  \<open>JSON_parse_exp\<close> for \<^verbatim>\<open>JSON.parse(json).exp\<close>.
\<close>

record cached_jwt =
  jwt :: string
  expiry :: int

fun split_on :: "char \<Rightarrow> string \<Rightarrow> string list" where
  "split_on sep [] = [[]]"
| "split_on sep (c # cs) =
     (if c = sep then [] # split_on sep cs
      else (case split_on sep cs of [] \<Rightarrow> [[c]] | s # ss \<Rightarrow> (c # s) # ss))"

record jwt_get_result =
  returned :: "thrown + string"
  cache :: "cached_jwt option"
  fetched :: bool

definition JWTCache_get ::
  "(string \<Rightarrow> string) \<Rightarrow> (string \<Rightarrow> thrown + int) \<Rightarrow> int \<Rightarrow> (thrown + string) \<Rightarrow>
   cached_jwt option \<Rightarrow> jwt_get_result" where
  "JWTCache_get base64_decode JSON_parse_exp now getJwt this_jwt =
     (if (case this_jwt of None \<Rightarrow> True | Some c \<Rightarrow> expiry c < now) then
        (case getJwt of
           Inl e \<Rightarrow> \<lparr>returned = Inl e, cache = this_jwt, fetched = True\<rparr>
         | Inr token \<Rightarrow>
             (case split_on CHR ''.'' token of
                s0 # s1 # rest \<Rightarrow>
                  (case JSON_parse_exp (base64_decode s1) of
                     Inl e \<Rightarrow> \<lparr>returned = Inl e, cache = this_jwt, fetched = True\<rparr>
                   | Inr exp_seconds \<Rightarrow>
                       \<lparr>returned = Inr token,
                        cache = Some \<lparr>jwt = token, expiry = exp_seconds * 1000 - 60000\<rparr>,
                        fetched = True\<rparr>)
              | _ \<Rightarrow>
                  \<lparr>returned = Inl (TypeError ''The first argument must be of type string''),
                   cache = this_jwt, fetched = True\<rparr>))
      else
        \<lparr>returned = (case this_jwt of Some c \<Rightarrow> Inr (jwt c) | None \<Rightarrow> Inl Undefined),
         cache = this_jwt, fetched = False\<rparr>)"


subsection \<open>Deployment files, options and results\<close>

text \<open>
  The content of a file is a buffer or a producer of one; a producer is modelled by the
  outcome of calling and awaiting it. \<open>DeploymentFileWithHash\<close> is the file after the first
  loop of \<^verbatim>\<open>deployFiles\<close> has attached its hash. \<open>log_opt\<close> tells whether the caller
  passed a \<^verbatim>\<open>log\<close> callback. \<open>truthy\<close> is the truth value that JavaScript gives an optional
  string, and \<open>opt field options\<close> is \<^verbatim>\<open>options?.field\<close>.
\<close>

datatype content = Buffer bytes | Producer "thrown + bytes"

record DeploymentFile =
  filename :: string
  content :: content
  contentType :: "string option"
  hash :: "string option"

record DeploymentFileWithHash =
  filename :: string
  content :: content
  contentType :: "string option"
  hash :: string
  contentBase64 :: "string option"

record DeploymentOptions =
  branch :: "string option"
  commitMessage :: "string option"
  commitHash :: "string option"
  headers :: "string option"
  redirects :: "string option"
  worker :: "string option"
  concurrency :: "int option"
  log_opt :: bool

record Deployment =
  id_str :: string
  url :: string
  hashes :: "(string \<times> string) list"

definition truthy :: "string option \<Rightarrow> bool" where
  "truthy s = (case s of None \<Rightarrow> False | Some v \<Rightarrow> v \<noteq> [])"

definition opt :: "('a \<Rightarrow> 'b option) \<Rightarrow> 'a option \<Rightarrow> 'b option" where
  "opt field options = (case options of None \<Rightarrow> None | Some opts \<Rightarrow> field opts)"

subsection \<open>deployFiles: hashing and grouping\<close>

definition materialize :: "content \<Rightarrow> thrown + bytes" where
  "materialize c = (case c of Buffer b \<Rightarrow> Inr b | Producer p \<Rightarrow> p)"

definition hash_file :: "DeploymentFile \<Rightarrow> thrown + DeploymentFileWithHash" where
  "hash_file file =
     (case (if truthy (DeploymentFile.hash file) then DeploymentFile.hash file else None) of
        Some h \<Rightarrow>
          Inr \<lparr>filename = DeploymentFile.filename file, content = DeploymentFile.content file,
               contentType = DeploymentFile.contentType file, hash = h, contentBase64 = None\<rparr>
      | None \<Rightarrow>
          (case materialize (DeploymentFile.content file) of
             Inl e \<Rightarrow> Inl e
           | Inr buf \<Rightarrow>
               (let content_b64 = toString_base64 buf
                in Inr \<lparr>filename = DeploymentFile.filename file,
                         content = DeploymentFile.content file,
                         contentType = DeploymentFile.contentType file,
                         hash = computeHashB64 content_b64 (DeploymentFile.filename file),
                         contentBase64 = Some content_b64\<rparr>)))"

fun compute_hashes :: "DeploymentFile list \<Rightarrow> thrown + DeploymentFileWithHash list" where
  "compute_hashes [] = Inr []"
| "compute_hashes (file # files) =
     (case hash_file file of
        Inl e \<Rightarrow> Inl e
      | Inr f \<Rightarrow> (case compute_hashes files of Inl e \<Rightarrow> Inl e | Inr fs \<Rightarrow> Inr (f # fs)))"

definition groupBy_keys :: "'a list \<Rightarrow> 'a list" where
  "groupBy_keys xs = rev (remdups (rev xs))"

subsection \<open>deployFiles: the remote operations and the upload workers\<close>

text \<open>
  The four operations on the remote index (each of them obtains the token, sends the request
  with retries, and throws on an envelope that reports a failure) are oracles of the
  environment: given the calls made so far and the argument, each either throws or returns.
  \<open>FileWithHash c t h\<close> is the object \<^verbatim>\<open>{ contentBase64: c, contentType: t, hash: h }\<close>.
  \<open>upload_one\<close> is the body of the worker's loop for the hash it has popped, and
  \<open>upload_worker\<close> the loop \<^verbatim>\<open>while (hashesToUpload.length > 0)\<close>, which pops from the
  end of the array. \<open>spawn_workers\<close> is the loop
  \<^verbatim>\<open>for (let i = 0; i < concurrency; i++)\<close>; it runs each worker to its end before the
  next one starts, which is what happens when there is at most one worker, and there never
  are two (lemma \<open>spawn_workers_at_most_one\<close>).
\<close>

datatype FileWithHash = FileWithHash string string string

datatype call =
    Log string
  | CheckMissing "string list"
  | UploadFile "FileWithHash list"
  | UpsertHashes "string list"
  | CreateDeployment "form_part list"

record env =
  getMissingHashes :: "call list \<Rightarrow> string list \<Rightarrow> thrown + string list"
  uploadFile :: "call list \<Rightarrow> FileWithHash list \<Rightarrow> thrown + unit"
  upsertHashes :: "call list \<Rightarrow> string list \<Rightarrow> thrown + unit"
  createDeployment :: "call list \<Rightarrow> form_part list \<Rightarrow> thrown + string \<times> string"
  getType :: "string \<Rightarrow> string option"

definition log_call :: "bool \<Rightarrow> string \<Rightarrow> call list" where
  "log_call enabled msg = (if enabled then [Log msg] else [])"

definition upload_content :: "DeploymentFileWithHash \<Rightarrow> thrown + string" where
  "upload_content file =
     (case contentBase64 file of
        Some c \<Rightarrow> Inr c
      | None \<Rightarrow>
          (case content file of
             Producer p \<Rightarrow> (case p of Inl e \<Rightarrow> Inl e | Inr buf \<Rightarrow> Inr (toString_base64 buf))
           | Buffer b \<Rightarrow> Inl (TypeError ''file.content is not a function'')))"

definition upload_contentType :: "env \<Rightarrow> DeploymentFileWithHash \<Rightarrow> string" where
  "upload_contentType env file =
     (case contentType file of
        Some t \<Rightarrow> t
      | None \<Rightarrow> (case getType env (filename file) of
                   Some t \<Rightarrow> t
                 | None \<Rightarrow> ''application/octet-stream''))"

definition upload_one ::
  "env \<Rightarrow> bool \<Rightarrow> DeploymentFileWithHash list \<Rightarrow> string \<Rightarrow> call list \<Rightarrow>
   (thrown + unit) \<times> call list" where
  "upload_one env lg filesWithHash missingHash calls =
     (case find (\<lambda>x. hash x = missingHash) filesWithHash of
        None \<Rightarrow> (Inl (TypeError ''Cannot read properties of undefined''), calls)
      | Some file \<Rightarrow>
          (let calls1 = calls @ log_call lg
                 (''file '' @ filename file @ ''/'' @ hash file @ '' missing, uploading.'')
           in case upload_content file of
                Inl e \<Rightarrow> (Inl e, calls1)
              | Inr content_b64 \<Rightarrow>
                  (let payload = [FileWithHash content_b64 (upload_contentType env file) (hash file)]
                   in case uploadFile env calls1 payload of
                        Inl e \<Rightarrow> (Inl e, calls1 @ [UploadFile payload])
                      | Inr u \<Rightarrow>
                          (Inr (), calls1 @ [UploadFile payload] @ log_call lg
                             (''uploaded file '' @ filename file @ ''/'' @ hash file)))))"

function upload_worker ::
  "env \<Rightarrow> bool \<Rightarrow> DeploymentFileWithHash list \<Rightarrow> string list \<Rightarrow> call list \<Rightarrow>
   (thrown + unit) \<times> string list \<times> call list" where
  "upload_worker env lg filesWithHash hashesToUpload calls =
     (if length hashesToUpload > 0 then
        (case upload_one env lg filesWithHash (last hashesToUpload) calls of
           (Inl e, calls1) \<Rightarrow> (Inl e, butlast hashesToUpload, calls1)
         | (Inr u, calls1) \<Rightarrow> upload_worker env lg filesWithHash (butlast hashesToUpload) calls1)
      else (Inr (), hashesToUpload, calls))"
  by pat_completeness auto
termination
  by (relation "measure (\<lambda>(env, lg, fs, q, calls). length q)") auto

declare upload_worker.simps [simp del]

record upload_state =
  promises :: "(thrown + unit) list"
  queue :: "string list"
  made :: "call list"

function spawn_workers ::
  "env \<Rightarrow> bool \<Rightarrow> DeploymentFileWithHash list \<Rightarrow> int \<Rightarrow> int \<Rightarrow> upload_state \<Rightarrow> upload_state" where
  "spawn_workers env lg filesWithHash i concurrency' st =
     (if i < concurrency' then
        (case upload_worker env lg filesWithHash (queue st) (made st) of
           (settled, remaining, calls) \<Rightarrow>
             spawn_workers env lg filesWithHash (i + 1) concurrency'
               \<lparr>promises = promises st @ [settled], queue = remaining, made = calls\<rparr>)
      else st)"
  by pat_completeness auto
termination
  by (relation "measure (\<lambda>(env, lg, fs, i, c, st). nat (c - i))") auto

declare spawn_workers.simps [simp del]

fun Promise_all :: "(thrown + unit) list \<Rightarrow> thrown + unit" where
  "Promise_all [] = Inr ()"
| "Promise_all (Inl e # ps) = Inl e"
| "Promise_all (Inr u # ps) = Promise_all ps"

subsection \<open>deployFiles: manifest, form and the whole run\<close>

definition Object_fromEntries :: "(string \<times> string) list \<Rightarrow> (string \<times> string) list" where
  "Object_fromEntries entries = fold (\<lambda>(k, v). AList.update k v) entries []"


definition form_data :: "DeploymentFileWithHash list \<Rightarrow> DeploymentOptions option \<Rightarrow> form_part list" where
  "form_data filesWithHash options =
     [JsonField ''manifest''
        (Object_fromEntries (map (\<lambda>f. (''/'' @ filename f, hash f)) filesWithHash))] @
     (case opt branch options of
        Some b \<Rightarrow> if b \<noteq> [] then [Field ''branch'' b] else [] | None \<Rightarrow> []) @
     (case opt commitMessage options of
        Some m \<Rightarrow> if m \<noteq> [] then [Field ''commit_message'' m] else [] | None \<Rightarrow> []) @
     (case opt commitHash options of
        Some h \<Rightarrow> if h \<noteq> [] then [Field ''commit_hash'' h] else [] | None \<Rightarrow> []) @
     (case opt headers options of
        Some h \<Rightarrow> if h \<noteq> [] then [BlobPart ''_headers'' h ''_headers''] else [] | None \<Rightarrow> []) @
     (case opt redirects options of
        Some r \<Rightarrow> if r \<noteq> [] then [BlobPart ''_redirects'' r ''_redirects''] else [] | None \<Rightarrow> []) @
     (case opt worker options of
        Some w \<Rightarrow> if w \<noteq> [] then [BlobPart ''_worker.js'' w ''_worker.js''] else [] | None \<Rightarrow> [])"

record run =
  outcome :: "thrown + Deployment"
  trace :: "call list"
  workers :: nat

definition requested_concurrency :: "DeploymentOptions option \<Rightarrow> int" where
  "requested_concurrency options = (case opt concurrency options of None \<Rightarrow> 4 | Some c \<Rightarrow> c)"

definition upload_phase ::
  "env \<Rightarrow> DeploymentOptions option \<Rightarrow> DeploymentFileWithHash list \<Rightarrow> string list \<Rightarrow>
   string list \<Rightarrow> upload_state" where
  "upload_phase env options filesWithHash keys missingHashes =
     (let lg = (case options of None \<Rightarrow> False | Some opts \<Rightarrow> log_opt opts);
          concurrency' = min (requested_concurrency options) 1
      in spawn_workers env lg filesWithHash 0 concurrency'
           \<lparr>promises = [], queue = missingHashes, made = [CheckMissing keys]\<rparr>)"

definition deployFiles :: "env \<Rightarrow> DeploymentFile list \<Rightarrow> DeploymentOptions option \<Rightarrow> run" where
  "deployFiles env files options =
     (case compute_hashes files of
        Inl e \<Rightarrow> \<lparr>outcome = Inl e, trace = [], workers = 0\<rparr>
      | Inr filesWithHash \<Rightarrow>
          (let keys = groupBy_keys (map hash filesWithHash)
           in case getMissingHashes env [] keys of
                Inl e \<Rightarrow> \<lparr>outcome = Inl e, trace = [CheckMissing keys], workers = 0\<rparr>
              | Inr missingHashes \<Rightarrow>
                  (let st = upload_phase env options filesWithHash keys missingHashes
                   in case Promise_all (promises st) of
                        Inl e \<Rightarrow>
                          \<lparr>outcome = Inl e, trace = made st, workers = length (promises st)\<rparr>
                      | Inr u \<Rightarrow>
                          (case (if length missingHashes \<noteq> 0
                                 then (upsertHashes env (made st) keys,
                                       made st @ [UpsertHashes keys])
                                 else (Inr (), made st)) of
                             (Inl e, calls) \<Rightarrow>
                               \<lparr>outcome = Inl e, trace = calls, workers = length (promises st)\<rparr>
                           | (Inr u, calls) \<Rightarrow>
                               (let formData = form_data filesWithHash options
                                in case createDeployment env calls formData of
                                     Inl e \<Rightarrow>
                                       \<lparr>outcome = Inl e,
                                        trace = calls @ [CreateDeployment formData],
                                        workers = length (promises st)\<rparr>
                                   | Inr (deployment_url, deployment_id) \<Rightarrow>
                                       \<lparr>outcome = Inr
                                          \<lparr>id_str = deployment_id, url = deployment_url,
                                           hashes = Object_fromEntries
                                             (map (\<lambda>x. (filename x, hash x)) filesWithHash)\<rparr>,
                                        trace = calls @ [CreateDeployment formData],
                                        workers = length (promises st)\<rparr>)))))"

subsection \<open>deployDirectory\<close>

text \<open>
  A directory is the list of its entries in the order \<^verbatim>\<open>readdir\<close> returns them; every
  entry that is not a directory is read as a file. \<open>resolve path name\<close> is
  \<^verbatim>\<open>path.resolve(path, name)\<close> for an absolute, normalised \<open>path\<close> and an entry name.
  \<open>base\<close> is \<^verbatim>\<open>resolve(directoryPath)\<close>. \<open>collect\<close> is the loop over the files found.
\<close>

datatype dirent = FileEntry string bytes | Directory string "dirent list"

definition resolve :: "string \<Rightarrow> string \<Rightarrow> string" where
  "resolve path name = (if path = ''/'' then path @ name else path @ ''/'' @ name)"

fun readDirRecursive :: "string \<Rightarrow> dirent list \<Rightarrow> (string \<times> bytes) list" where
  "readDirRecursive path [] = []"
| "readDirRecursive path (FileEntry name data # dirents) =
     (resolve path name, data) # readDirRecursive path dirents"
| "readDirRecursive path (Directory name children # dirents) =
     readDirRecursive (resolve path name) children @ readDirRecursive path dirents"

definition empty_options :: DeploymentOptions where
  "empty_options =
     \<lparr>branch = None, commitMessage = None, commitHash = None, headers = None, redirects = None,
      worker = None, concurrency = None, log_opt = False\<rparr>"

fun collect ::
  "string \<Rightarrow> (string \<times> bytes) list \<Rightarrow> DeploymentOptions \<Rightarrow> (string \<times> string) list \<Rightarrow>
   DeploymentOptions \<times> (string \<times> string) list" where
  "collect base [] options files = (options, files)"
| "collect base ((file, data) # rest) options files =
     (let relative = drop (length base + 1) file
      in if relative = ''_headers'' then
           collect base rest
             (if \<not> truthy (headers options) then options\<lparr>headers := Some data\<rparr> else options) files
         else if relative = ''_redirects'' then
           collect base rest
             (if \<not> truthy (redirects options) then options\<lparr>redirects := Some data\<rparr> else options)
             files
         else if relative = ''_worker.js'' then
           collect base rest
             (if \<not> truthy (worker options) then options\<lparr>worker := Some data\<rparr> else options) files
         else collect base rest options (files @ [(file, relative)]))"

definition readFile :: "(string \<times> bytes) list \<Rightarrow> string \<Rightarrow> thrown + bytes" where
  "readFile listing path =
     (case map_of listing path of
        Some data \<Rightarrow> Inr data
      | None \<Rightarrow> Inl (Error ''ENOENT: no such file or directory''))"

definition deployDirectory ::
  "env \<Rightarrow> string \<Rightarrow> dirent list \<Rightarrow> DeploymentOptions option \<Rightarrow> run" where
  "deployDirectory env base tree options =
     (let listing = readDirRecursive base tree
      in case collect base listing (case options of None \<Rightarrow> empty_options | Some opts \<Rightarrow> opts) [] of
           (options', files) \<Rightarrow>
             deployFiles env
               (map (\<lambda>(fn, relative).
                  \<lparr>DeploymentFile.filename = relative, content = Producer (readFile listing fn),
                   contentType = None, hash = None\<rparr>) files)
               (Some options'))"


subsection \<open>Observations on the trace of a run\<close>

text \<open>
  The payloads of the calls of \<^verbatim>\<open>uploadFile\<close> in a trace, in order, the fingerprints they
  carry, and the arguments of the calls of \<^verbatim>\<open>upsertHashes\<close>.
\<close>

fun uploads :: "call list \<Rightarrow> FileWithHash list list" where
  "uploads [] = []"
| "uploads (UploadFile payload # calls) = payload # uploads calls"
| "uploads (c # calls) = uploads calls"

fun payload_hash :: "FileWithHash \<Rightarrow> string" where
  "payload_hash (FileWithHash content_b64 content_type h) = h"

definition uploaded_hashes :: "call list \<Rightarrow> string list" where
  "uploaded_hashes calls = map payload_hash (concat (uploads calls))"

fun upsert_calls :: "call list \<Rightarrow> string list list" where
  "upsert_calls [] = []"
| "upsert_calls (UpsertHashes hs # calls) = hs # upsert_calls calls"
| "upsert_calls (c # calls) = upsert_calls calls"

subsection \<open>Example environments and inputs\<close>

text \<open>
  A remote index on which every operation succeeds and every fingerprint asked about is
  missing, and one that reports one fingerprint twice.
\<close>

definition env_ok :: env where
  "env_ok =
     \<lparr>getMissingHashes = (\<lambda>calls hs. Inr hs), uploadFile = (\<lambda>calls payload. Inr ()),
      upsertHashes = (\<lambda>calls hs. Inr ()),
      createDeployment = (\<lambda>calls form. Inr (''https://example.pages.dev'', ''deployment-1'')),
      getType = (\<lambda>name. None)\<rparr>"

definition env_twice :: env where
  "env_twice = env_ok\<lparr>getMissingHashes := (\<lambda>calls hs. Inr (hs @ hs))\<rparr>"

definition file_a :: DeploymentFile where
  "file_a =
     \<lparr>DeploymentFile.filename = ''index.html'', content = Producer (Inr ''A''),
      contentType = None, hash = Some ''00000000000000000000000000000001''\<rparr>"

definition file_b :: DeploymentFile where
  "file_b =
     \<lparr>DeploymentFile.filename = ''style.css'', content = Producer (Inr ''B''),
      contentType = Some ''text/css'', hash = Some ''00000000000000000000000000000002''\<rparr>"

definition with_concurrency :: "int \<Rightarrow> DeploymentOptions" where
  "with_concurrency c = empty_options\<lparr>concurrency := Some c\<rparr>"

definition file_a_hashed :: DeploymentFileWithHash where
  "file_a_hashed =
     \<lparr>filename = ''index.html'', content = Producer (Inr ''A''), contentType = None,
      hash = ''00000000000000000000000000000001'', contentBase64 = None\<rparr>"


section \<open>Properties\<close>

subsection \<open>Lemmas on the upload workers\<close>

lemma uploads_append: "uploads (xs @ ys) = uploads xs @ uploads ys"
  by (induction xs rule: uploads.induct) simp_all

lemma upsert_calls_append: "upsert_calls (xs @ ys) = upsert_calls xs @ upsert_calls ys"
  by (induction xs rule: upsert_calls.induct) simp_all

lemma uploads_log_call: "uploads (log_call lg msg) = []"
  by (simp add: log_call_def)

lemma upsert_calls_log_call: "upsert_calls (log_call lg msg) = []"
  by (simp add: log_call_def)

lemma find_hash: "find (\<lambda>x. hash x = h) fs = Some file \<Longrightarrow> hash file = h"
  by (induction fs) (auto split: if_splits)

lemma upload_one_ok:
  assumes "upload_one env lg fs h calls = (Inr u, calls1)"
  shows "\<exists>c t. uploads calls1 = uploads calls @ [[FileWithHash c t h]]"
    and "upsert_calls calls1 = upsert_calls calls"
  using assms
  by (auto simp: upload_one_def Let_def uploads_append upsert_calls_append uploads_log_call
      upsert_calls_log_call dest: find_hash split: option.splits sum.splits)



lemma upload_worker_ok:
  "upload_worker env lg fs q calls = (Inr u, q1, calls1) \<Longrightarrow>
     q1 = [] \<and> uploaded_hashes calls1 = uploaded_hashes calls @ rev q \<and>
     length (uploads calls1) = length (uploads calls) + length q \<and>
     (\<forall>p \<in> set (uploads calls1). p \<in> set (uploads calls) \<or> length p = 1)"
proof (induction env lg fs q calls rule: upload_worker.induct)
  case (1 env lg fs q calls)
  show ?case
  proof (cases "0 < length q")
    case False
    with 1(2) show ?thesis by (simp add: upload_worker.simps)
  next
    case True
    obtain r1 calls2 where one: "upload_one env lg fs (last q) calls = (r1, calls2)"
      by (cases "upload_one env lg fs (last q) calls")
    show ?thesis
    proof (cases r1)
      case (Inl e)
      with 1(2) True one show ?thesis by (simp add: upload_worker.simps)
    next
      case (Inr v)
      with 1(2) True one have rest: "upload_worker env lg fs (butlast q) calls2 = (Inr u, q1, calls1)"
        by (simp add: upload_worker.simps)
      from one Inr obtain c t where step: "uploads calls2 = uploads calls @ [[FileWithHash c t (last q)]]"
        using upload_one_ok(1) by blast
      from 1(1) [OF True one [symmetric] Inr rest]
      have ih: "q1 = []" "uploaded_hashes calls1 = uploaded_hashes calls2 @ rev (butlast q)"
        "length (uploads calls1) = length (uploads calls2) + length (butlast q)"
        "\<forall>p \<in> set (uploads calls1). p \<in> set (uploads calls2) \<or> length p = 1"
        by simp_all
      from True have "rev (butlast q @ [last q]) = rev q" by simp
      then have rev_q: "last q # rev (butlast q) = rev q" by simp
      have hashes: "uploaded_hashes calls1 = uploaded_hashes calls @ rev q"
        using ih(2) step by (simp add: uploaded_hashes_def rev_q)
      have count: "length (uploads calls1) = length (uploads calls) + length q"
        using ih(3) step True by simp
      have single: "\<forall>p \<in> set (uploads calls1). p \<in> set (uploads calls) \<or> length p = 1"
        using ih(4) step by auto
      from ih(1) hashes count single show ?thesis by simp
    qed
  qed
qed

lemma spawn_workers_none: "concurrency' \<le> i \<Longrightarrow> spawn_workers env lg fs i concurrency' st = st"
  by (subst spawn_workers.simps) simp

lemma spawn_workers_one:
  "spawn_workers env lg fs 0 1 st =
     (case upload_worker env lg fs (queue st) (made st) of
        (settled, remaining, calls) \<Rightarrow>
          \<lparr>promises = promises st @ [settled], queue = remaining, made = calls\<rparr>)"
  by (subst spawn_workers.simps) (simp add: spawn_workers_none split: prod.splits)

lemma spawn_workers_at_most_one:
  "length (promises (spawn_workers env lg fs 0 (min r 1) st)) \<le> length (promises st) + 1"
proof (cases "1 \<le> r")
  case True
  then have "min r 1 = 1" by simp
  then show ?thesis by (simp add: spawn_workers_one split: prod.splits)
next
  case False
  then have "min r 1 \<le> 0" by simp
  then show ?thesis by (simp add: spawn_workers_none)
qed

lemma upload_phase_none:
  "requested_concurrency options \<le> 0 \<Longrightarrow>
     upload_phase env options fs keys missing =
       \<lparr>promises = [], queue = missing, made = [CheckMissing keys]\<rparr>"
  by (simp add: upload_phase_def Let_def spawn_workers_none)

lemma upload_phase_one:
  "1 \<le> requested_concurrency options \<Longrightarrow>
     upload_phase env options fs keys missing =
       (case upload_worker env (case options of None \<Rightarrow> False | Some opts \<Rightarrow> log_opt opts) fs
               missing [CheckMissing keys] of
          (settled, remaining, calls) \<Rightarrow>
            \<lparr>promises = [settled], queue = remaining, made = calls\<rparr>)"
  by (simp add: upload_phase_def Let_def spawn_workers_one min_def)





lemmas deploy_eval =
  deployFiles_def upload_phase_def requested_concurrency_def opt_def with_concurrency_def
  empty_options_def env_ok_def env_twice_def file_a_def file_b_def file_a_hashed_def
  hash_file_def truthy_def groupBy_keys_def spawn_workers_none spawn_workers_one
  upload_worker.simps upload_one_def upload_content_def upload_contentType_def log_call_def
  form_data_def Object_fromEntries_def materialize_def Let_def

lemma compute_hashes_file_a: "compute_hashes [file_a] = Inr [file_a_hashed]"
  by (simp add: file_a_def file_a_hashed_def hash_file_def truthy_def)

subsection \<open>C1: the number of upload workers\<close>

text \<open>
  C1, as amended. In a run of \<open>deployFiles\<close> that reaches the upload phase, the number of
  workers spawned is 1 when the requested concurrency (\<open>options.concurrency\<close>, 4 when absent)
  is at least 1, and 0 when it is 0 or negative.
\<close>

theorem worker_count:
  assumes "compute_hashes files = Inr fs"
    and "getMissingHashes env [] (groupBy_keys (map hash fs)) = Inr missing"
  shows "workers (deployFiles env files options) =
           (if 1 \<le> requested_concurrency options then 1 else 0)"
proof (cases "1 \<le> requested_concurrency options")
  case True
  obtain r q1 calls1 where
    "upload_worker env (case options of None \<Rightarrow> False | Some opts \<Rightarrow> log_opt opts) fs missing
       [CheckMissing (groupBy_keys (map hash fs))] = (r, q1, calls1)"
    by (metis prod_cases3)
  with True assms show ?thesis
    by (simp add: deployFiles_def Let_def upload_phase_one split: sum.splits prod.splits)
next
  case False
  then have "requested_concurrency options \<le> 0" by simp
  with False assms show ?thesis
    by (simp add: deployFiles_def Let_def upload_phase_none split: sum.splits prod.splits)
qed

theorem worker_count_witness:
  "compute_hashes [file_a] = Inr [file_a_hashed] \<and>
   getMissingHashes env_ok [] (groupBy_keys (map hash [file_a_hashed])) =
     Inr [''00000000000000000000000000000001''] \<and>
   workers (deployFiles env_ok [file_a] None) = 1"
proof -
  have hashed: "compute_hashes [file_a] = Inr [file_a_hashed]"
    by (rule compute_hashes_file_a)
  have checked: "getMissingHashes env_ok [] (groupBy_keys (map hash [file_a_hashed])) =
      Inr [''00000000000000000000000000000001'']"
    by (simp add: env_ok_def groupBy_keys_def file_a_hashed_def)
  have "workers (deployFiles env_ok [file_a] None) = 1"
    using worker_count [OF hashed checked, of None]
    by (simp add: requested_concurrency_def opt_def)
  with hashed checked show ?thesis by blast
qed

text \<open>
  C1 as stated fails: with \<open>options.concurrency = 0\<close> no worker is spawned, so the count is
  not 1 whatever the caller passes; and with \<open>options.concurrency = -1\<close> the count, 0, is not
  \<open>min (-1) 1\<close>.
\<close>

theorem worker_count_counterexample:
  "workers (deployFiles env_ok [file_a] (Some (with_concurrency 0))) = 0 \<and>
   workers (deployFiles env_ok [file_a] (Some (with_concurrency 0))) \<noteq> 1 \<and>
   int (workers (deployFiles env_ok [file_a] (Some (with_concurrency (- 1))))) \<noteq> min (- 1) 1"
  by (simp add: deploy_eval)


subsection \<open>C8: when upsertHashes is called, and with what\<close>



subsection \<open>C9: one upload for each missing fingerprint\<close>

text \<open>
  C9, as amended. In a successful run of \<open>deployFiles\<close> whose requested concurrency is at least
  1, \<open>uploadFile\<close> is called once for each entry of the list \<open>missing\<close> that \<open>getMissingHashes\<close>
  returned, each call with a single file: the fingerprints uploaded are the entries of
  \<open>missing\<close>, last first. So every missing fingerprint is uploaded exactly once when the list
  has no repetition, and at least one upload is made when the list is non-empty.
\<close>

theorem uploads_once_each:
  assumes "outcome (deployFiles env files options) = Inr d"
    and "1 \<le> requested_concurrency options"
    and "compute_hashes files = Inr fs"
    and "getMissingHashes env [] (groupBy_keys (map hash fs)) = Inr missing"
  shows "uploaded_hashes (trace (deployFiles env files options)) = rev missing \<and>
         length (uploads (trace (deployFiles env files options))) = length missing \<and>
         (\<forall>p \<in> set (uploads (trace (deployFiles env files options))). length p = 1) \<and>
         (distinct missing \<longrightarrow> distinct (uploaded_hashes (trace (deployFiles env files options)))) \<and>
         (missing \<noteq> [] \<longrightarrow> uploads (trace (deployFiles env files options)) \<noteq> [])"
proof -
  let ?keys = "groupBy_keys (map hash fs)"
  let ?lg = "case options of None \<Rightarrow> False | Some opts \<Rightarrow> log_opt opts"
  obtain r q1 calls1 where w:
    "upload_worker env ?lg fs missing [CheckMissing ?keys] = (r, q1, calls1)"
    by (metis prod_cases3)
  with assms have r: "r = Inr ()"
    by (cases r) (simp_all add: deployFiles_def Let_def upload_phase_one)
  from upload_worker_ok [OF w [unfolded r]]
  have ok: "uploaded_hashes calls1 = rev missing"
    "length (uploads calls1) = length missing"
    "\<forall>p \<in> set (uploads calls1). length p = 1"
    by (simp_all add: uploaded_hashes_def)
  from assms w r
  have "\<exists>rest. trace (deployFiles env files options) = calls1 @ rest \<and> uploads rest = []"
    by (auto simp: deployFiles_def Let_def upload_phase_one split: sum.splits prod.splits if_splits)
  then have same: "uploads (trace (deployFiles env files options)) = uploads calls1"
    by (auto simp: uploads_append)
  with ok have "uploaded_hashes (trace (deployFiles env files options)) = rev missing"
    by (simp add: uploaded_hashes_def)
  with same ok show ?thesis by auto
qed

theorem uploads_once_each_witness:
  "outcome (deployFiles env_ok [file_a] None) =
     Inr \<lparr>id_str = ''deployment-1'', url = ''https://example.pages.dev'',
          hashes = [(''index.html'', ''00000000000000000000000000000001'')]\<rparr> \<and>
   1 \<le> requested_concurrency None \<and>
   compute_hashes [file_a] = Inr [file_a_hashed] \<and>
   getMissingHashes env_ok [] (groupBy_keys (map hash [file_a_hashed])) =
     Inr [''00000000000000000000000000000001''] \<and>
   uploaded_hashes (trace (deployFiles env_ok [file_a] None)) =
     [''00000000000000000000000000000001''] \<and>
   length (uploads (trace (deployFiles env_ok [file_a] None))) = 1"
proof -
  have ok: "outcome (deployFiles env_ok [file_a] None) =
      Inr \<lparr>id_str = ''deployment-1'', url = ''https://example.pages.dev'',
           hashes = [(''index.html'', ''00000000000000000000000000000001'')]\<rparr>"
    by (simp add: deploy_eval)
  have requested: "1 \<le> requested_concurrency None"
    by (simp add: requested_concurrency_def opt_def)
  have hashed: "compute_hashes [file_a] = Inr [file_a_hashed]"
    by (rule compute_hashes_file_a)
  have checked: "getMissingHashes env_ok [] (groupBy_keys (map hash [file_a_hashed])) =
      Inr [''00000000000000000000000000000001'']"
    by (simp add: env_ok_def groupBy_keys_def file_a_hashed_def)
  have "uploaded_hashes (trace (deployFiles env_ok [file_a] None)) =
      [''00000000000000000000000000000001''] \<and>
    length (uploads (trace (deployFiles env_ok [file_a] None))) = 1"
    using uploads_once_each [OF ok requested hashed checked] by simp
  with ok requested hashed checked show ?thesis by blast
qed

text \<open>
  C9 as stated fails in two ways. With \<open>options.concurrency = 0\<close> the run succeeds, one
  fingerprint is missing, and nothing is uploaded. And when the remote index reports the same
  fingerprint twice, that one fingerprint is uploaded twice.
\<close>

theorem uploads_once_each_counterexample:
  "deployFiles env_ok [file_a] (Some (with_concurrency 0)) =
     \<lparr>outcome = Inr \<lparr>id_str = ''deployment-1'', url = ''https://example.pages.dev'',
          hashes = [(''index.html'', ''00000000000000000000000000000001'')]\<rparr>,
      trace = [CheckMissing [''00000000000000000000000000000001''],
               UpsertHashes [''00000000000000000000000000000001''],
               CreateDeployment [JsonField ''manifest''
                 [(''/index.html'', ''00000000000000000000000000000001'')]]],
      workers = 0\<rparr> \<and>
   getMissingHashes env_ok [] [''00000000000000000000000000000001''] =
     Inr [''00000000000000000000000000000001''] \<and>
   uploads (trace (deployFiles env_ok [file_a] (Some (with_concurrency 0)))) = [] \<and>
   getMissingHashes env_twice [] [''00000000000000000000000000000001''] =
     Inr [''00000000000000000000000000000001'', ''00000000000000000000000000000001''] \<and>
   uploaded_hashes (trace (deployFiles env_twice [file_a] None)) =
     [''00000000000000000000000000000001'', ''00000000000000000000000000000001''] \<and>
   isl (outcome (deployFiles env_twice [file_a] None)) = False"
  by (simp add: deploy_eval uploaded_hashes_def)

subsection \<open>C10: a requested concurrency of 0 or less\<close>

text \<open>
  C10. When the requested concurrency is 0 or negative, no worker is spawned and
  \<open>uploadFile\<close> is never called. The run still calls \<open>upsertHashes\<close> when \<open>missing\<close> is
  non-empty, then \<open>createDeployment\<close>, and when these succeed it returns the deployment, as
  it does after uploading.
\<close>

theorem no_uploads_without_workers:
  assumes "requested_concurrency options \<le> 0"
    and "compute_hashes files = Inr fs"
    and "getMissingHashes env [] (groupBy_keys (map hash fs)) = Inr missing"
    and "missing \<noteq> [] \<Longrightarrow>
           upsertHashes env [CheckMissing (groupBy_keys (map hash fs))]
             (groupBy_keys (map hash fs)) = Inr ()"
    and "createDeployment env
           ([CheckMissing (groupBy_keys (map hash fs))] @
            (if missing \<noteq> [] then [UpsertHashes (groupBy_keys (map hash fs))] else []))
           (form_data fs options) = Inr (deployment_url, deployment_id)"
  shows "deployFiles env files options =
           \<lparr>outcome = Inr \<lparr>id_str = deployment_id, url = deployment_url,
                hashes = Object_fromEntries (map (\<lambda>x. (filename x, hash x)) fs)\<rparr>,
            trace = [CheckMissing (groupBy_keys (map hash fs))] @
              (if missing \<noteq> [] then [UpsertHashes (groupBy_keys (map hash fs))] else []) @
              [CreateDeployment (form_data fs options)],
            workers = 0\<rparr> \<and>
         uploads (trace (deployFiles env files options)) = []"
proof -
  have run: "deployFiles env files options =
      \<lparr>outcome = Inr \<lparr>id_str = deployment_id, url = deployment_url,
           hashes = Object_fromEntries (map (\<lambda>x. (filename x, hash x)) fs)\<rparr>,
       trace = [CheckMissing (groupBy_keys (map hash fs))] @
         (if missing \<noteq> [] then [UpsertHashes (groupBy_keys (map hash fs))] else []) @
         [CreateDeployment (form_data fs options)],
       workers = 0\<rparr>"
  proof (cases "missing = []")
    case True
    with assms show ?thesis
      by (simp add: deployFiles_def Let_def upload_phase_none)
  next
    case False
    with assms show ?thesis
      by (simp add: deployFiles_def Let_def upload_phase_none)
  qed
  then show ?thesis by simp
qed

theorem no_uploads_without_workers_witness:
  "requested_concurrency (Some (with_concurrency 0)) \<le> 0 \<and>
   compute_hashes [file_a] = Inr [file_a_hashed] \<and>
   getMissingHashes env_ok [] (groupBy_keys (map hash [file_a_hashed])) =
     Inr [''00000000000000000000000000000001''] \<and>
   trace (deployFiles env_ok [file_a] (Some (with_concurrency 0))) =
     [CheckMissing [''00000000000000000000000000000001''],
      UpsertHashes [''00000000000000000000000000000001''],
      CreateDeployment [JsonField ''manifest''
        [(''/index.html'', ''00000000000000000000000000000001'')]]] \<and>
   outcome (deployFiles env_ok [file_a] (Some (with_concurrency 0))) =
     Inr \<lparr>id_str = ''deployment-1'', url = ''https://example.pages.dev'',
          hashes = [(''index.html'', ''00000000000000000000000000000001'')]\<rparr>"
proof -
  let ?options = "Some (with_concurrency 0)"
  have requested: "requested_concurrency ?options \<le> 0"
    by (simp add: requested_concurrency_def opt_def with_concurrency_def empty_options_def)
  have hashed: "compute_hashes [file_a] = Inr [file_a_hashed]"
    by (rule compute_hashes_file_a)
  have checked: "getMissingHashes env_ok [] (groupBy_keys (map hash [file_a_hashed])) =
      Inr [''00000000000000000000000000000001'']"
    by (simp add: env_ok_def groupBy_keys_def file_a_hashed_def)
  have upserted: "upsertHashes env_ok [CheckMissing (groupBy_keys (map hash [file_a_hashed]))]
      (groupBy_keys (map hash [file_a_hashed])) = Inr ()"
    by (simp add: env_ok_def)
  have created: "createDeployment env_ok
      ([CheckMissing (groupBy_keys (map hash [file_a_hashed]))] @
       (if [''00000000000000000000000000000001''] \<noteq> []
        then [UpsertHashes (groupBy_keys (map hash [file_a_hashed]))] else []))
      (form_data [file_a_hashed] ?options) = Inr (''https://example.pages.dev'', ''deployment-1'')"
    by (simp add: env_ok_def)
  have "trace (deployFiles env_ok [file_a] ?options) =
      [CheckMissing [''00000000000000000000000000000001''],
       UpsertHashes [''00000000000000000000000000000001''],
       CreateDeployment [JsonField ''manifest''
         [(''/index.html'', ''00000000000000000000000000000001'')]]] \<and>
    outcome (deployFiles env_ok [file_a] ?options) =
      Inr \<lparr>id_str = ''deployment-1'', url = ''https://example.pages.dev'',
           hashes = [(''index.html'', ''00000000000000000000000000000001'')]\<rparr>"
    using no_uploads_without_workers [OF requested hashed checked upserted created]
    by (simp add: groupBy_keys_def file_a_hashed_def form_data_def Object_fromEntries_def opt_def
        with_concurrency_def empty_options_def)
  with requested hashed checked show ?thesis by blast
qed


subsection \<open>Lemmas on the retry wrapper\<close>

lemma requests_append: "requests (xs @ ys) = requests xs @ requests ys"
  by (induction xs rule: requests.induct) simp_all

lemma sleeps_append: "sleeps (xs @ ys) = sleeps xs @ sleeps ys"
  by (induction xs rule: sleeps.induct) simp_all

lemma requests_failed_round: "requests (failed_round attempt lg u i) = [i]"
  by (simp add: failed_round_def)

lemma sleeps_failed_round: "sleeps (failed_round attempt lg u i) = [backoff_delay (int i + 1)]"
  by (simp add: failed_round_def)

lemma requests_failed_rounds:
  "requests (concat (map (failed_round attempt lg u) [c..<c + k])) = [c..<c + k]"
proof (induction k)
  case 0
  show ?case by simp
next
  case (Suc k)
  then show ?case by (simp add: requests_append requests_failed_round)
qed

lemma sleeps_failed_rounds:
  "sleeps (concat (map (failed_round attempt lg u) [c..<c + k])) =
     map (\<lambda>i. backoff_delay (int i)) [Suc c..<Suc (c + k)]"
proof (induction k)
  case 0
  show ?case by simp
next
  case (Suc k)
  then show ?case by (simp add: sleeps_append sleeps_failed_round add.commute)
qed

lemma retry_loop_fail_step:
  assumes "attempt c = Inl e" and "c < n"
  shows "retry_loop attempt lg u (int n) (int c) lastError events =
           retry_loop attempt lg u (int n) (int (Suc c)) (thrown_by attempt c)
             (events @ failed_round attempt lg u c)"
  using assms
  by (subst retry_loop.simps) (simp add: failed_round_def thrown_by_def add.commute)

lemma retry_loop_returns:
  assumes "\<forall>j<k. isl (attempt (c + j))" and "c + k < n" and "attempt (c + k) = Inr result"
  shows "retry_loop attempt lg u (int n) (int c) lastError events =
           Some (Inr result,
             events @ concat (map (failed_round attempt lg u) [c..<c + k]) @ [Requested (c + k)])"
  using assms
proof (induction k arbitrary: c lastError events)
  case 0
  then show ?case by (subst retry_loop.simps) simp
next
  case (Suc k)
  from Suc.prems(1) have "isl (attempt (c + 0))" by blast
  then obtain e where e: "attempt c = Inl e" by (cases "attempt c") simp_all
  from Suc.prems(2) have c: "c < n" by simp
  have later: "\<forall>j<k. isl (attempt (Suc c + j))"
    using Suc.prems(1) by (metis Suc_less_eq add_Suc_shift)
  have step: "retry_loop attempt lg u (int n) (int c) lastError events =
      retry_loop attempt lg u (int n) (int (Suc c)) (thrown_by attempt c)
        (events @ failed_round attempt lg u c)"
    by (rule retry_loop_fail_step [of attempt c e n, OF e c])
  have ih: "retry_loop attempt lg u (int n) (int (Suc c)) (thrown_by attempt c)
      (events @ failed_round attempt lg u c) =
    Some (Inr result, (events @ failed_round attempt lg u c) @
      concat (map (failed_round attempt lg u) [Suc c..<Suc c + k]) @ [Requested (Suc c + k)])"
    using Suc.prems(2,3) by (intro Suc.IH later) simp_all
  have idx: "[c..<c + Suc k] = c # [Suc c..<Suc c + k]"
    by (simp add: upt_conv_Cons del: upt_Suc)
  show ?case
    unfolding step ih idx by simp
qed

lemma retry_loop_exhausted:
  assumes "\<forall>j<k. isl (attempt (c + j))" and "c + k = n"
  shows "retry_loop attempt lg u (int n) (int c) lastError events =
           Some (Inl (if k = 0 then lastError else thrown_by attempt (n - 1)),
             events @ concat (map (failed_round attempt lg u) [c..<c + k]))"
  using assms
proof (induction k arbitrary: c lastError events)
  case 0
  then show ?case by (subst retry_loop.simps) simp
next
  case (Suc k)
  from Suc.prems(1) have "isl (attempt (c + 0))" by blast
  then obtain e where e: "attempt c = Inl e" by (cases "attempt c") simp_all
  from Suc.prems(2) have c: "c < n" by simp
  have later: "\<forall>j<k. isl (attempt (Suc c + j))"
    using Suc.prems(1) by (metis Suc_less_eq add_Suc_shift)
  have step: "retry_loop attempt lg u (int n) (int c) lastError events =
      retry_loop attempt lg u (int n) (int (Suc c)) (thrown_by attempt c)
        (events @ failed_round attempt lg u c)"
    by (rule retry_loop_fail_step [of attempt c e n, OF e c])
  have ih: "retry_loop attempt lg u (int n) (int (Suc c)) (thrown_by attempt c)
      (events @ failed_round attempt lg u c) =
    Some (Inl (if k = 0 then thrown_by attempt c else thrown_by attempt (n - 1)),
      (events @ failed_round attempt lg u c) @
      concat (map (failed_round attempt lg u) [Suc c..<Suc c + k]))"
    using Suc.prems(2) by (intro Suc.IH later) simp
  have idx: "[c..<c + Suc k] = c # [Suc c..<Suc c + k]"
    by (simp add: upt_conv_Cons del: upt_Suc)
  from Suc.prems(2) have final: "(if k = 0 then thrown_by attempt c else thrown_by attempt (n - 1)) =
      thrown_by attempt (n - 1)"
    by auto
  show ?case
    unfolding step ih idx final by simp
qed


lemma doRequest_network_failure:
  "(\<And>request. fetch request = FetchFailed e) \<Longrightarrow> doRequest JSON_parse fetch u apiKey options = Inl e"
  by (simp add: doRequest_def Let_def)

lemma doRequest_not_json:
  assumes "\<And>request. fetch request = Response ct txt"
    and "case ct of None \<Rightarrow> True | Some t \<Rightarrow> t = [] \<or> \<not> str_includes t ''application/json''"
  shows "doRequest JSON_parse fetch u apiKey options = Inl (Error (''expecting json '' @ txt))"
  using assms by (auto simp: doRequest_def Let_def split: option.splits)

lemma doRequest_json:
  assumes "\<And>request. fetch request = Response (Some t) txt"
    and "t \<noteq> []" and "str_includes t ''application/json''"
  shows "doRequest JSON_parse fetch u apiKey options = JSON_parse txt"
  using assms by (simp add: doRequest_def Let_def)

lemma backoff_delay_le: "backoff_delay i \<le> 60000"
  by (simp add: backoff_delay_def)

lemma six_powr: "(60 :: real) \<le> 6 powr 2.5"
proof -
  have "(6 :: real) powr 2.5 = 6 powr (2 + 1 / 2)"
    by simp
  also have "\<dots> = 6 powr 2 * 6 powr (1 / 2)"
    by (rule powr_add)
  also have "\<dots> = 36 * sqrt 6"
    by (simp add: powr_half_sqrt)
  finally have eq: "(6 :: real) powr 2.5 = 36 * sqrt 6" .
  have "sqrt 4 \<le> sqrt (6 :: real)"
    by (rule real_sqrt_le_mono) simp
  then have "2 \<le> sqrt (6 :: real)" by simp
  with eq show ?thesis by simp
qed

lemma five_powr: "(5 :: real) powr 2.5 < 60"
proof -
  have "(5 :: real) powr 2.5 = 5 powr (2 + 1 / 2)"
    by simp
  also have "\<dots> = 5 powr 2 * 5 powr (1 / 2)"
    by (rule powr_add)
  also have "\<dots> = 25 * sqrt 5"
    by (simp add: powr_half_sqrt)
  finally have eq: "(5 :: real) powr 2.5 = 25 * sqrt 5" .
  have "sqrt 5 < sqrt ((12 / 5)\<^sup>2 :: real)"
    by (rule real_sqrt_less_mono) (simp add: power2_eq_square)
  then have "sqrt (5 :: real) < 12 / 5" by simp
  with eq show ?thesis by simp
qed

lemma backoff_delay_cap: "6 \<le> i \<Longrightarrow> backoff_delay i = 60000"
proof -
  assume "6 \<le> i"
  then have "(6 :: real) powr 2.5 \<le> real_of_int i powr 2.5"
    by (intro powr_mono2) simp_all
  with six_powr have "60 \<le> real_of_int i powr 2.5" by simp
  then show ?thesis by (simp add: backoff_delay_def)
qed

lemma backoff_delay_uncapped:
  "1 \<le> i \<Longrightarrow> i \<le> 5 \<Longrightarrow>
     backoff_delay i = real_of_int i powr 2.5 * 1000 \<and> backoff_delay i < 60000"
proof -
  assume "1 \<le> i" "i \<le> 5"
  then have "real_of_int i powr 2.5 \<le> 5 powr 2.5"
    by (intro powr_mono2) simp_all
  with five_powr have "real_of_int i powr 2.5 < 60" by simp
  then show ?thesis by (simp add: backoff_delay_def)
qed

lemma backoff_delay_mono: "0 \<le> i \<Longrightarrow> i \<le> j \<Longrightarrow> backoff_delay i \<le> backoff_delay j"
proof -
  assume "0 \<le> i" "i \<le> j"
  then have "real_of_int i powr 2.5 \<le> real_of_int j powr 2.5"
    by (intro powr_mono2) simp_all
  then show ?thesis by (simp add: backoff_delay_def min_le_iff_disj)
qed

subsection \<open>C5: the retry budget\<close>

text \<open>
  C5. With the default budget of 5, \<open>doRequestWithRetries\<close> calls \<open>doRequest\<close> again only
  after a call that threw. If the first \<open>k\<close> calls throw (\<open>k < 5\<close>) and the next one returns
  an envelope, that envelope is returned after exactly \<open>k + 1\<close> calls: for \<open>k = 4\<close>, a request
  that fails four times and succeeds on the fifth; for \<open>k = 0\<close>, no retry at all, which is
  the case of a well-formed answer with \<open>success: false\<close>. If all five calls throw, the value
  thrown by the fifth is thrown again and there is no sixth call. A call throws when the
  transport fails and when the content type of the response is absent or is not JSON; it
  returns when the response is JSON, whatever the envelope says.
\<close>

theorem retry_budget:
  assumes "\<forall>j<k. isl (doRequest JSON_parse (fetch j) u apiKey options)"
    and "k \<le> 5"
  shows "(k < 5 \<and> doRequest JSON_parse (fetch k) u apiKey options = Inr result \<longrightarrow>
           (\<exists>events. doRequestWithRetries JSON_parse fetch u apiKey options default_retries =
              Some (Inr result, events) \<and> requests events = [0..<Suc k])) \<and>
         (k = 5 \<longrightarrow>
           (\<exists>events. doRequestWithRetries JSON_parse fetch u apiKey options default_retries =
              Some (Inl (thrown_by (\<lambda>j. doRequest JSON_parse (fetch j) u apiKey options) 4), events) \<and>
              requests events = [0, 1, 2, 3, 4])) \<and>
         ((\<forall>request. fetch 0 request = Response (Some ct) txt) \<and> ct \<noteq> [] \<and>
          str_includes ct ''application/json'' \<and> JSON_parse txt = Inr (Failure errors) \<longrightarrow>
           doRequestWithRetries JSON_parse fetch u apiKey options default_retries =
             Some (Inr (Failure errors), [Requested 0])) \<and>
         ((\<forall>request. fetch i request = Response ct' txt') \<and>
          (case ct' of None \<Rightarrow> True | Some t \<Rightarrow> t = [] \<or> \<not> str_includes t ''application/json'') \<longrightarrow>
           doRequest JSON_parse (fetch i) u apiKey options = Inl (Error (''expecting json '' @ txt'))) \<and>
         ((\<forall>request. fetch i request = FetchFailed e) \<longrightarrow>
           doRequest JSON_parse (fetch i) u apiKey options = Inl e)"
proof -
  let ?attempt = "\<lambda>j. doRequest JSON_parse (fetch j) u apiKey options"
  let ?lg = "RequestOptions.log_opt options"
  have returns: "\<exists>events. doRequestWithRetries JSON_parse fetch u apiKey options default_retries =
      Some (Inr result, events) \<and> requests events = [0..<Suc k]"
    if "k < 5" and "?attempt k = Inr result"
  proof -
    from assms(1) have "\<forall>j<k. isl (?attempt (0 + j))" by simp
    moreover from that(1) have "0 + k < 5" by simp
    moreover from that(2) have "?attempt (0 + k) = Inr result" by simp
    ultimately have "retry_loop ?attempt ?lg u (int 5) (int 0) Undefined [] =
        Some (Inr result, [] @ concat (map (failed_round ?attempt ?lg u) [0..<0 + k]) @
          [Requested (0 + k)])"
      by (rule retry_loop_returns)
    then show ?thesis
      using requests_failed_rounds [of ?attempt ?lg u 0 k]
      by (simp add: doRequestWithRetries_def default_retries_def requests_append)
  qed
  have exhausted: "\<exists>events. doRequestWithRetries JSON_parse fetch u apiKey options default_retries =
      Some (Inl (thrown_by ?attempt 4), events) \<and> requests events = [0, 1, 2, 3, 4]"
    if "k = 5"
  proof -
    from assms(1) have "\<forall>j<k. isl (?attempt (0 + j))" by simp
    moreover from that have "0 + k = 5" by simp
    ultimately have "retry_loop ?attempt ?lg u (int 5) (int 0) Undefined [] =
        Some (Inl (if k = 0 then Undefined else thrown_by ?attempt (5 - 1)),
          [] @ concat (map (failed_round ?attempt ?lg u) [0..<0 + k]))"
      by (rule retry_loop_exhausted)
    moreover have "[0..<5] = [0, 1, 2, 3, 4 :: nat]"
      by (simp add: upt_rec)
    ultimately show ?thesis
      using requests_failed_rounds [of ?attempt ?lg u 0 k] that
      by (simp add: doRequestWithRetries_def default_retries_def)
  qed
  have envelope: "doRequestWithRetries JSON_parse fetch u apiKey options default_retries =
      Some (Inr (Failure errors), [Requested 0])"
    if "\<forall>request. fetch 0 request = Response (Some ct) txt" and "ct \<noteq> []"
      and "str_includes ct ''application/json''" and "JSON_parse txt = Inr (Failure errors)"
  proof -
    from that have "?attempt 0 = Inr (Failure errors)"
      by (simp add: doRequest_json [of "fetch 0" ct "txt"])
    then show ?thesis
      by (simp add: doRequestWithRetries_def default_retries_def retry_loop.simps)
  qed
  have guard: "doRequest JSON_parse (fetch i) u apiKey options = Inl (Error (''expecting json '' @ txt'))"
    if "\<forall>request. fetch i request = Response ct' txt'"
      and "case ct' of None \<Rightarrow> True | Some t \<Rightarrow> t = [] \<or> \<not> str_includes t ''application/json''"
    using that by (intro doRequest_not_json [of "fetch i" ct' "txt'"]) simp_all
  have transport: "doRequest JSON_parse (fetch i) u apiKey options = Inl e"
    if "\<forall>request. fetch i request = FetchFailed e"
    using that by (intro doRequest_network_failure) simp
  from returns exhausted envelope guard transport show ?thesis by blast
qed

theorem retry_budget_witness:
  "\<exists>events. doRequestWithRetries parse_ok fetch_fifth ''/pages/assets/check-missing'' ''key''
      no_options default_retries = Some (Inr (Success []), events) \<and>
    requests events = [0, 1, 2, 3, 4]"
proof -
  have failing: "\<forall>j<4. isl (doRequest parse_ok (fetch_fifth j) ''/pages/assets/check-missing''
      ''key'' no_options)"
    by (simp add: doRequest_def fetch_fifth_def Let_def)
  have fifth: "doRequest parse_ok (fetch_fifth 4) ''/pages/assets/check-missing'' ''key''
      no_options = Inr (Success [])"
    by (simp add: doRequest_def fetch_fifth_def parse_ok_def Let_def)
  have "[0..<Suc 4] = [0, 1, 2, 3, 4 :: nat]"
    by (simp add: upt_rec)
  with retry_budget [OF failing, of "Success []"] fifth show ?thesis
    by simp
qed

subsection \<open>C6: the back-off delays\<close>

text \<open>
  C6. When the first \<open>k\<close> calls of a request throw (and either the budget \<open>n\<close> is then used
  up or the next call returns), the wrapper has slept \<open>k\<close> times, and after failed attempt
  number \<open>i\<close> (from 1) it has slept \<open>min (i powr 2.5) 60 * 1000\<close> milliseconds. The delay
  grows with the attempt number, stays below 60 seconds up to attempt 5, and is 60 seconds
  from attempt 6 on.
\<close>

theorem backoff_delays:
  assumes "\<forall>j<k. isl (doRequest JSON_parse (fetch j) u apiKey options)"
    and "k \<le> n"
    and "k < n \<longrightarrow> \<not> isl (doRequest JSON_parse (fetch k) u apiKey options)"
  shows "(\<exists>r events. doRequestWithRetries JSON_parse fetch u apiKey options (int n) =
            Some (r, events) \<and>
            sleeps events = map (\<lambda>i. min (real i powr 2.5) 60 * 1000) [1..<Suc k]) \<and>
         (\<forall>i. backoff_delay i = min (real_of_int i powr 2.5) 60 * 1000 \<and>
              backoff_delay i \<le> 60000 \<and>
              (1 \<le> i \<and> i \<le> 5 \<longrightarrow> backoff_delay i = real_of_int i powr 2.5 * 1000 \<and>
                 backoff_delay i < 60000) \<and>
              (6 \<le> i \<longrightarrow> backoff_delay i = 60000) \<and>
              (\<forall>j. 0 \<le> i \<and> i \<le> j \<longrightarrow> backoff_delay i \<le> backoff_delay j))"
proof -
  let ?attempt = "\<lambda>j. doRequest JSON_parse (fetch j) u apiKey options"
  let ?lg = "RequestOptions.log_opt options"
  have delays: "map (\<lambda>i. backoff_delay (int i)) [Suc 0..<Suc (0 + k)] =
      map (\<lambda>i. min (real i powr 2.5) 60 * 1000) [1..<Suc k]"
    by (simp add: backoff_delay_def)
  from assms(1) have failing: "\<forall>j<k. isl (?attempt (0 + j))" by simp
  have run: "\<exists>r events. doRequestWithRetries JSON_parse fetch u apiKey options (int n) =
      Some (r, events) \<and> sleeps events = map (\<lambda>i. min (real i powr 2.5) 60 * 1000) [1..<Suc k]"
  proof (cases "k < n")
    case True
    with assms(3) obtain result where "?attempt (0 + k) = Inr result"
      by (cases "?attempt k") simp_all
    moreover from True have "0 + k < n" by simp
    ultimately have "retry_loop ?attempt ?lg u (int n) (int 0) Undefined [] =
        Some (Inr result, [] @ concat (map (failed_round ?attempt ?lg u) [0..<0 + k]) @
          [Requested (0 + k)])"
      by (intro retry_loop_returns failing)
    then show ?thesis
      using sleeps_failed_rounds [of ?attempt ?lg u 0 k] delays
      by (simp add: doRequestWithRetries_def sleeps_append)
  next
    case False
    with assms(2) have "0 + k = n" by simp
    with failing have "retry_loop ?attempt ?lg u (int n) (int 0) Undefined [] =
        Some (Inl (if k = 0 then Undefined else thrown_by ?attempt (n - 1)),
          [] @ concat (map (failed_round ?attempt ?lg u) [0..<0 + k]))"
      by (rule retry_loop_exhausted)
    then show ?thesis
      using sleeps_failed_rounds [of ?attempt ?lg u 0 k] delays
      by (simp add: doRequestWithRetries_def)
  qed
  have "backoff_delay i = min (real_of_int i powr 2.5) 60 * 1000" for i
    by (simp add: backoff_delay_def)
  with run show ?thesis
    using backoff_delay_le backoff_delay_uncapped backoff_delay_cap backoff_delay_mono
    by blast
qed

theorem backoff_delays_witness:
  "\<exists>r events. doRequestWithRetries parse_ok fetch_fifth ''/pages/assets/check-missing'' ''key''
      no_options (int 5) = Some (r, events) \<and>
    sleeps events = [1000, min (2 powr 2.5) 60 * 1000, min (3 powr 2.5) 60 * 1000, 32000]"
proof -
  have failing: "\<forall>j<4. isl (doRequest parse_ok (fetch_fifth j) ''/pages/assets/check-missing''
      ''key'' no_options)"
    by (simp add: doRequest_def fetch_fifth_def Let_def)
  have fifth: "4 < (5 :: nat) \<longrightarrow> \<not> isl (doRequest parse_ok (fetch_fifth 4)
      ''/pages/assets/check-missing'' ''key'' no_options)"
    by (simp add: doRequest_def fetch_fifth_def parse_ok_def Let_def)
  have four: "(4 :: real) powr 2.5 = 32"
  proof -
    have "(4 :: real) powr 2.5 = (2 powr 2) powr 2.5" by simp
    also have "\<dots> = 2 powr 5" by (simp only: powr_powr) simp
    finally show ?thesis by simp
  qed
  have "map (\<lambda>i. min (real i powr 2.5) 60 * 1000) [1..<Suc 4] =
      [1000, min (2 powr 2.5) 60 * 1000, min (3 powr 2.5) 60 * 1000, 32000]"
    by (simp add: upt_rec four)
  with backoff_delays [OF failing _ fifth] show ?thesis
    by simp
qed


subsection \<open>C7: the token cache\<close>

text \<open>
  C7, as amended. \<open>get\<close> fetches a fresh token exactly when no token is cached or the expiry
  of the cached one is strictly before the current time. A token cached with an expiry equal
  to or after the current time is returned unchanged, with no remote call. A fresh token
  whose second dot-separated segment decodes to claims with expiry \<open>exp\<close> (in seconds) is
  returned and stored with expiry \<open>exp * 1000 - 60000\<close> milliseconds.
\<close>

theorem jwt_cache_get:
  "(this_jwt = Some c \<and> now \<le> expiry c \<longrightarrow>
      JWTCache_get base64_decode JSON_parse_exp now getJwt this_jwt =
        \<lparr>returned = Inr (jwt c), cache = Some c, fetched = False\<rparr>) \<and>
   ((this_jwt = None \<or> (\<exists>c. this_jwt = Some c \<and> expiry c < now)) \<and> getJwt = Inr token \<and>
    split_on CHR ''.'' token = s0 # s1 # rest \<and>
    JSON_parse_exp (base64_decode s1) = Inr exp_seconds \<longrightarrow>
      JWTCache_get base64_decode JSON_parse_exp now getJwt this_jwt =
        \<lparr>returned = Inr token,
         cache = Some \<lparr>jwt = token, expiry = exp_seconds * 1000 - 60000\<rparr>,
         fetched = True\<rparr>) \<and>
   (fetched (JWTCache_get base64_decode JSON_parse_exp now getJwt this_jwt) \<longleftrightarrow>
      this_jwt = None \<or> (\<exists>c. this_jwt = Some c \<and> expiry c < now))"
  by (auto simp: JWTCache_get_def split: option.splits sum.splits list.splits)

theorem jwt_cache_get_witness:
  "JWTCache_get (\<lambda>s. s) (\<lambda>json. Inr 2000) 1000 (Inr ''header.claims.signature'') None =
     \<lparr>returned = Inr ''header.claims.signature'',
      cache = Some \<lparr>jwt = ''header.claims.signature'', expiry = 1940000\<rparr>,
      fetched = True\<rparr> \<and>
   JWTCache_get (\<lambda>s. s) (\<lambda>json. Inr 2000) 1000 (Inr ''header.claims.signature'')
       (Some \<lparr>jwt = ''cached'', expiry = 1001\<rparr>) =
     \<lparr>returned = Inr ''cached'', cache = Some \<lparr>jwt = ''cached'', expiry = 1001\<rparr>,
      fetched = False\<rparr>"
proof -
  have segments: "split_on CHR ''.'' ''header.claims.signature'' =
      ''header'' # ''claims'' # [''signature'']"
    by simp
  have fresh: "JWTCache_get (\<lambda>s. s) (\<lambda>json. Inr 2000) 1000 (Inr ''header.claims.signature'') None =
      \<lparr>returned = Inr ''header.claims.signature'',
       cache = Some \<lparr>jwt = ''header.claims.signature'', expiry = 1940000\<rparr>,
       fetched = True\<rparr>"
    using jwt_cache_get [of None _ 1000 "\<lambda>s. s" "\<lambda>json. Inr 2000"
        "Inr ''header.claims.signature''" "''header.claims.signature''" "''header''" "''claims''"
        "[''signature'']" 2000] segments
    by simp
  have cached: "JWTCache_get (\<lambda>s. s) (\<lambda>json. Inr 2000) 1000 (Inr ''header.claims.signature'')
        (Some \<lparr>jwt = ''cached'', expiry = 1001\<rparr>) =
      \<lparr>returned = Inr ''cached'', cache = Some \<lparr>jwt = ''cached'', expiry = 1001\<rparr>,
       fetched = False\<rparr>"
    using jwt_cache_get [of "Some \<lparr>jwt = ''cached'', expiry = 1001\<rparr>"
        "\<lparr>jwt = ''cached'', expiry = 1001\<rparr>" 1000 "\<lambda>s. s" "\<lambda>json. Inr 2000"
        "Inr ''header.claims.signature''"]
    by simp
  from fresh cached show ?thesis by blast
qed

text \<open>
  C7 as stated fails when the expiry of the cached token equals the current time: the
  comparison is \<^verbatim>\<open>this.jwt.expiry < new Date()\<close>, so the cached token is returned and no
  token is fetched.
\<close>

theorem jwt_cache_get_counterexample:
  "JWTCache_get (\<lambda>s. s) (\<lambda>json. Inr 2000) 1000 (Inr ''header.claims.signature'')
       (Some \<lparr>jwt = ''cached'', expiry = 1000\<rparr>) =
     \<lparr>returned = Inr ''cached'', cache = Some \<lparr>jwt = ''cached'', expiry = 1000\<rparr>,
      fetched = False\<rparr>"
  by (simp add: JWTCache_get_def)


end
